theory Spec2Isabelle
  imports Main "HOL-Library.Char_ord" "HOL-Library.List_Lexorder" "HOL-Library.Multiset"
begin

section \<open>Data model\<close>

text \<open>
  The activity server keeps one Mongo collection of activities. A stored document is a
  record with the fields of \<open>activitySchema\<close>; the collection is the list of its documents
  in insertion order. Dates and times are plain strings, compared as JavaScript and
  MongoDB compare strings: lexicographically by character code, a proper prefix first
  (the order of \<open>List_Lexorder\<close> over \<open>Char_ord\<close>). A \<open>Date\<close> is its number of
  milliseconds.
\<close>

type_synonym oid = string

record attachment =
  fileName :: string
  originalName :: string
  mimeType :: string
  size_bytes :: nat
  url :: string
  uploadedAt :: int

record activity =
  a_id :: oid
  date :: string
  endDate :: string
  isFullDay :: bool
  title :: string
  category :: string
  phase :: string
  status :: string
  startTime :: string
  endTime :: string
  notes_text :: string
  attachments :: "attachment list"
  createdAt :: int

type_synonym store = "activity list"

text \<open>
  A value of a request body. The text fields of a creation request are strings or absent
  (\<open>None\<close> is \<open>undefined\<close>); \<open>isFullDay\<close> is compared with \<open>===\<close> against strings and
  against the boolean \<open>true\<close>, so it is kept as a JavaScript value. The handler never
  looks inside a number, so the type of numbers is a parameter.
\<close>

datatype 'n jsval =
    JUndefined
  | JNull
  | JBool bool
  | JNum 'n
  | JStr string
  | JArray "'n jsval list"
  | JObject "(string \<times> 'n jsval) list"

record 'n body =
  body_date :: "string option"
  body_endDate :: "string option"
  body_title :: "string option"
  body_category :: "string option"
  body_phase :: "string option"
  body_status :: "string option"
  body_startTime :: "string option"
  body_endTime :: "string option"
  body_notes :: "string option"
  body_isFullDay :: "'n jsval"

text \<open>The file object multer leaves in \<open>req.files\<close> for each stored upload.\<close>

record uploaded_file =
  filename :: string
  originalname :: string
  mimetype :: string
  file_size :: nat

text \<open>
  What a handler sends: \<open>{success: true, activity}\<close>, \<open>{success: true, activities}\<close>,
  \<open>{success: true}\<close>, or a status code with \<open>{success: false, message}\<close>.
\<close>

datatype response =
    Success_activity activity
  | Success_activities "activity list"
  | Success
  | Failure nat string

datatype error = ValidatorError | CastError | MulterError

section \<open>Creating an activity\<close>

text \<open>\<open>!v\<close> on a string or \<open>undefined\<close>: only \<open>undefined\<close> and the empty string are falsy.\<close>

definition falsy :: "string option \<Rightarrow> bool" where
  "falsy v = (case v of None \<Rightarrow> True | Some s \<Rightarrow> s = [])"

text \<open>The two steps that normalise \<open>endDate\<close> against the start date.\<close>

definition normalise_endDate :: "string \<Rightarrow> string option \<Rightarrow> string" where
  "normalise_endDate d e =
     (let e1 = (if falsy e then d else (case e of Some x \<Rightarrow> x | None \<Rightarrow> d))
      in if e1 < d then d else e1)"

definition fullDayFlag :: "'n jsval \<Rightarrow> bool" where
  "fullDayFlag v = (v = JStr ''true'' \<or> v = JStr ''on'' \<or> v = JBool True)"

definition to_attachment :: "int \<Rightarrow> uploaded_file \<Rightarrow> attachment" where
  "to_attachment now f =
     \<lparr> fileName = filename f,
       originalName = originalname f,
       mimeType = mimetype f,
       size_bytes = file_size f,
       url = ''/uploads/'' @ filename f,
       uploadedAt = now \<rparr>"

text \<open>A schema default applies where the constructor was given \<open>undefined\<close>.\<close>

definition or_default :: "string \<Rightarrow> string option \<Rightarrow> string" where
  "or_default d v = (case v of None \<Rightarrow> d | Some s \<Rightarrow> s)"

text \<open>
  \<open>activity.save()\<close>: the schema's \<open>required\<close> validators run first (a required string
  must not be empty), then the document is inserted.
\<close>

definition save :: "activity \<Rightarrow> store \<Rightarrow> error + store" where
  "save a s =
     (if date a = [] \<or> endDate a = [] \<or> title a = [] then Inl ValidatorError
      else Inr (s @ [a]))"

text \<open>
  The handler of \<open>POST /api/activities\<close>. \<open>new_id\<close> is the identifier the driver
  generates for the document, \<open>now\<close> the clock's reading, \<open>files\<close> is \<open>req.files\<close>
  (\<open>None\<close> when no multipart body was parsed).
\<close>

definition create_activity ::
  "oid \<Rightarrow> int \<Rightarrow> 'n body \<Rightarrow> uploaded_file list option \<Rightarrow> store \<Rightarrow> response \<times> store" where
  "create_activity new_id now b files s =
     (case (body_date b, body_title b) of
        (Some d, Some t) \<Rightarrow>
          if d = [] \<or> t = [] then (Failure 400 ''Date and title are required.'', s)
          else
            let e = normalise_endDate d (body_endDate b);
                flag = fullDayFlag (body_isFullDay b);
                st = (if flag then Some [] else body_startTime b);
                et = (if flag then Some [] else body_endTime b);
                atts = map (to_attachment now) (case files of None \<Rightarrow> [] | Some fs \<Rightarrow> fs);
                a = \<lparr> a_id = new_id,
                      date = d,
                      endDate = e,
                      isFullDay = flag,
                      title = t,
                      category = or_default ''Other'' (body_category b),
                      phase = or_default ''Unspecified'' (body_phase b),
                      status = or_default ''Planned'' (body_status b),
                      startTime = or_default [] st,
                      endTime = or_default [] et,
                      notes_text = or_default [] (body_notes b),
                      attachments = atts,
                      createdAt = now \<rparr>
            in (case save a s of
                  Inl err \<Rightarrow> (Failure 500 ''Server error.'', s)
                | Inr s' \<Rightarrow> (Success_activity a, s'))
      | _ \<Rightarrow> (Failure 400 ''Date and title are required.'', s))"

text \<open>
  The route puts multer's \<open>upload.array("files", 10)\<close> in front of the handler. Multer
  is a library; its documented contract is written out here: the file parts of a
  multipart body (the parts that carry a file name) are taken in order, each needs the
  expected field name and one of the remaining places, and the first part that lacks
  either ends the request with an error.
  The error goes to the framework's own error handler (the server installs none), which
  answers with status 500, and the handler is never called.
\<close>

record file_part =
  part_fieldname :: string
  part_file :: uploaded_file

fun upload_array :: "string \<Rightarrow> nat \<Rightarrow> file_part list \<Rightarrow> error + uploaded_file list" where
  "upload_array name left [] = Inr []"
| "upload_array name left (p # ps) =
     (if part_fieldname p \<noteq> name \<or> left = 0 then Inl MulterError
      else (case upload_array name (left - 1) ps of
              Inl e \<Rightarrow> Inl e
            | Inr fs \<Rightarrow> Inr (part_file p # fs)))"

text \<open>
  A creation request: its parsed body and, when it is multipart, its file parts
  (multer leaves any other request alone, and \<open>req.files\<close> stays \<open>undefined\<close>).
\<close>

record 'n request =
  req_body :: "'n body"
  req_parts :: "file_part list option"

definition post_activities ::
  "oid \<Rightarrow> int \<Rightarrow> 'n request \<Rightarrow> store \<Rightarrow> response \<times> store" where
  "post_activities new_id now r s =
     (case req_parts r of
        None \<Rightarrow> create_activity new_id now (req_body r) None s
      | Some ps \<Rightarrow>
          (case upload_array ''files'' 10 ps of
             Inl e \<Rightarrow> (Failure 500 ''Unexpected field'', s)
           | Inr fs \<Rightarrow> create_activity new_id now (req_body r) (Some fs) s))"

section \<open>Queries\<close>

text \<open>
  \<open>.sort({date: 1, startTime: 1, createdAt: 1})\<close>: documents are compared by \<open>date\<close>,
  then by \<open>startTime\<close>, then by \<open>createdAt\<close>, each ascending. The comparison answers
  \<open>-1\<close>, \<open>0\<close> or \<open>1\<close>; sorting is by insertion.
\<close>

definition cmp_asc :: "'a::linorder \<Rightarrow> 'a \<Rightarrow> int" where
  "cmp_asc x y = (if x < y then - 1 else if y < x then 1 else 0)"

definition sort_cmp :: "activity \<Rightarrow> activity \<Rightarrow> int" where
  "sort_cmp a b =
     (if cmp_asc (date a) (date b) \<noteq> 0 then cmp_asc (date a) (date b)
      else if cmp_asc (startTime a) (startTime b) \<noteq> 0
        then cmp_asc (startTime a) (startTime b)
      else cmp_asc (createdAt a) (createdAt b))"

fun insert_by :: "('a \<Rightarrow> 'a \<Rightarrow> int) \<Rightarrow> 'a \<Rightarrow> 'a list \<Rightarrow> 'a list" where
  "insert_by c x [] = [x]"
| "insert_by c x (y # ys) = (if c x y \<le> 0 then x # y # ys else y # insert_by c x ys)"

definition sort_activities :: "activity list \<Rightarrow> activity list" where
  "sort_activities xs = foldr (insert_by sort_cmp) xs []"

text \<open>\<open>GET /api/activities/day?date=d\<close>: the activities whose range covers the day.\<close>

definition get_activities_day :: "string option \<Rightarrow> store \<Rightarrow> response" where
  "get_activities_day d s =
     (case d of
        None \<Rightarrow> Failure 400 ''Date is required.''
      | Some x \<Rightarrow>
          if x = [] then Failure 400 ''Date is required.''
          else Success_activities
                 (sort_activities (filter (\<lambda>a. date a \<le> x \<and> x \<le> endDate a) s)))"

subsection \<open>The month's bounds\<close>

text \<open>\<open>str.split(c)\<close>: the pieces between the separators; there is always one piece.\<close>

fun split_on :: "char \<Rightarrow> string \<Rightarrow> string list" where
  "split_on c [] = [[]]"
| "split_on c (x # xs) =
     (if x = c then [] # split_on c xs
      else (case split_on c xs of
              [] \<Rightarrow> [[x]]
            | p # ps \<Rightarrow> (x # p) # ps))"

text \<open>An element of an array by index; \<open>None\<close> is \<open>undefined\<close>.\<close>

fun element :: "'a list \<Rightarrow> nat \<Rightarrow> 'a option" where
  "element [] n = None"
| "element (x # xs) 0 = Some x"
| "element (x # xs) (Suc n) = element xs n"

text \<open>A value inside a template literal: \<open>undefined\<close> prints as its name.\<close>

definition template :: "string option \<Rightarrow> string" where
  "template v = (case v of None \<Rightarrow> ''undefined'' | Some s \<Rightarrow> s)"

definition is_digit :: "char \<Rightarrow> bool" where
  "is_digit c = (48 \<le> (of_char c :: nat) \<and> (of_char c :: nat) \<le> 57)"

definition digit_value :: "char \<Rightarrow> nat" where
  "digit_value c = of_char c - 48"

definition is_whitespace :: "char \<Rightarrow> bool" where
  "is_whitespace c = ((of_char c :: nat) \<in> {9, 10, 11, 12, 13, 32, 160})"

definition digits_value :: "string \<Rightarrow> nat" where
  "digits_value ds = foldl (\<lambda>n c. 10 * n + digit_value c) 0 ds"

text \<open>
  \<open>parseInt(v, 10)\<close>: leading white space is skipped, a sign is read, then the longest
  run of decimal digits; with no digit the result is \<open>NaN\<close> (\<open>None\<close>). The result is
  the exact integer; a JavaScript number is exact below \<open>2 ^ 53\<close>, and every year or
  month beyond that is outside the range of dates below.
\<close>

definition parseInt10 :: "string option \<Rightarrow> int option" where
  "parseInt10 v =
     (let s = dropWhile is_whitespace (template v);
          sgn = (case s of [] \<Rightarrow> 1 | c # cs \<Rightarrow> if c = CHR ''-'' then - 1 else 1);
          r = (case s of [] \<Rightarrow> []
               | c # cs \<Rightarrow> if c = CHR ''-'' \<or> c = CHR ''+'' then cs else s);
          ds = takeWhile is_digit r
      in if ds = [] then None else Some (sgn * int (digits_value ds)))"

definition leap_year :: "int \<Rightarrow> bool" where
  "leap_year y = (y mod 4 = 0 \<and> (y mod 100 \<noteq> 0 \<or> y mod 400 = 0))"

text \<open>The days of a month of the calendar, the month given by its index from 0 to 11.\<close>

definition days_in_month :: "int \<Rightarrow> int \<Rightarrow> int" where
  "days_in_month y mi =
     (if mi = 1 then (if leap_year y then 29 else 28)
      else if mi = 3 \<or> mi = 5 \<or> mi = 8 \<or> mi = 10 then 30
      else 31)"

text \<open>
  \<open>new Date(y, m, 0).getDate()\<close>. The constructor reads a year from 0 to 99 as a year
  of the twentieth century; a month index beyond 0 to 11 carries into the year; day 0
  is the last day of the month before. So the result is the length of the month numbered
  \<open>12 * year + m - 1\<close>. A date outside the range of \<open>Date\<close> (from April of the year
  -271821 to September of the year 275760) is invalid, and so is one built from \<open>NaN\<close>;
  its \<open>getDate()\<close> is \<open>NaN\<close>. The local time zone is taken to skip no calendar day.
\<close>

definition date_last_day :: "int option \<Rightarrow> int option \<Rightarrow> int option" where
  "date_last_day y m =
     (case (y, m) of
        (Some yi, Some mi) \<Rightarrow>
          (let yr = (if 0 \<le> yi \<and> yi \<le> 99 then 1900 + yi else yi);
               k = yr * 12 + mi - 1
           in if k < - 271821 * 12 + 3 \<or> 275760 * 12 + 7 < k then None
              else Some (days_in_month (k div 12) (k mod 12)))
      | _ \<Rightarrow> None)"

text \<open>\<open>n.toString()\<close> of an integer or \<open>NaN\<close>, and \<open>padStart\<close>.\<close>

fun decimal :: "nat \<Rightarrow> string" where
  "decimal n =
     (if n < 10 then [char_of (48 + n)]
      else decimal (n div 10) @ [char_of (48 + n mod 10)])"

declare decimal.simps [simp del]

definition number_toString :: "int option \<Rightarrow> string" where
  "number_toString v =
     (case v of
        None \<Rightarrow> ''NaN''
      | Some n \<Rightarrow> if n < 0 then CHR ''-'' # decimal (nat (- n)) else decimal (nat n))"

definition padStart :: "nat \<Rightarrow> char \<Rightarrow> string \<Rightarrow> string" where
  "padStart n c s = replicate (n - length s) c @ s"

definition pad2 :: "int option \<Rightarrow> string" where
  "pad2 n = padStart 2 (CHR ''0'') (number_toString n)"

text \<open>\<open>startOfMonth\<close> and \<open>endOfMonth\<close>, as the handler builds them from \<open>month\<close>.\<close>

definition month_bounds :: "string \<Rightarrow> string \<times> string" where
  "month_bounds month =
     (let parts = split_on (CHR ''-'') month;
          yearStr = element parts 0;
          monthStr = element parts 1;
          y = parseInt10 yearStr;
          m = parseInt10 monthStr;
          startOfMonth = template yearStr @ ''-'' @ template monthStr @ ''-01'';
          lastDayNum = date_last_day y m;
          endOfMonth = template yearStr @ ''-'' @ template monthStr @ ''-'' @ pad2 lastDayNum
      in (startOfMonth, endOfMonth))"

text \<open>
  \<open>GET /api/activities?month=m\<close>: the activities that overlap the month, or all of
  them when no month is given.
\<close>

definition get_activities :: "string option \<Rightarrow> store \<Rightarrow> response" where
  "get_activities month s =
     (let flt =
        (if falsy month then (\<lambda>a. True)
         else (case month of
                 None \<Rightarrow> (\<lambda>a. True)
               | Some mo \<Rightarrow>
                   (\<lambda>a. date a \<le> snd (month_bounds mo) \<and> fst (month_bounds mo) \<le> endDate a)))
      in Success_activities (sort_activities (filter flt s)))"

section \<open>Deleting an activity\<close>

text \<open>
  \<open>Activity.findByIdAndDelete(id)\<close> removes the document with that identifier if there
  is one. The route parameter is a string; the call first casts it to an identifier,
  and a string that is no identifier makes it throw, which the handler's \<open>catch\<close>
  answers with status 500. The cast belongs to the database layer and is a parameter
  here.
\<close>

fun delete_one :: "oid \<Rightarrow> store \<Rightarrow> store" where
  "delete_one i [] = []"
| "delete_one i (a # as) = (if a_id a = i then as else a # delete_one i as)"

definition findByIdAndDelete ::
  "(string \<Rightarrow> oid option) \<Rightarrow> string \<Rightarrow> store \<Rightarrow> error + store" where
  "findByIdAndDelete cast_id p s =
     (case cast_id p of
        None \<Rightarrow> Inl CastError
      | Some i \<Rightarrow> Inr (delete_one i s))"

text \<open>The handler of \<open>DELETE /api/activities/:id\<close>.\<close>

definition delete_activity ::
  "(string \<Rightarrow> oid option) \<Rightarrow> string \<Rightarrow> store \<Rightarrow> response \<times> store" where
  "delete_activity cast_id p s =
     (case findByIdAndDelete cast_id p s of
        Inl err \<Rightarrow> (Failure 500 ''Server error.'', s)
      | Inr s' \<Rightarrow> (Success, s'))"

section \<open>The earlier revision of the day query\<close>

text \<open>
  An earlier revision of the server stores no \<open>endDate\<close>: every activity is of one day.
  Its day query selects the activities whose \<open>date\<close> is the day asked for,
  \<open>Activity.find({ date })\<close>, and sorts them by \<open>startTime\<close>, then \<open>createdAt\<close>.
\<close>

definition sort_cmp_day :: "activity \<Rightarrow> activity \<Rightarrow> int" where
  "sort_cmp_day a b =
     (if cmp_asc (startTime a) (startTime b) \<noteq> 0 then cmp_asc (startTime a) (startTime b)
      else cmp_asc (createdAt a) (createdAt b))"

definition get_activities_day_single :: "string option \<Rightarrow> store \<Rightarrow> response" where
  "get_activities_day_single d s =
     (case d of
        None \<Rightarrow> Failure 400 ''Date is required.''
      | Some x \<Rightarrow>
          if x = [] then Failure 400 ''Date is required.''
          else Success_activities
                 (foldr (insert_by sort_cmp_day) (filter (\<lambda>a. date a = x) s) []))"

section \<open>The calendar and the order of the keys\<close>

text \<open>
  The design of the month query asks for the last day of the month by true calendar
  arithmetic, with the lengths of the months and the leap years. That calendar, for a
  year and a month from 1 to 12: thirty days for April, June, September and November,
  February with 28 days or, in a leap year, 29, and 31 days otherwise; a year is a leap
  year when it is divisible by 4 and not by 100, or divisible by 400.
\<close>

definition calendar_last_day :: "int \<Rightarrow> int \<Rightarrow> int" where
  "calendar_last_day y m =
     (if m = 2 then (if y mod 400 = 0 \<or> (y mod 4 = 0 \<and> y mod 100 \<noteq> 0) then 29 else 28)
      else if m = 4 \<or> m = 6 \<or> m = 9 \<or> m = 11 then 30
      else 31)"

text \<open>
  A month in the form \<open>YYYY-MM\<close>: four digits, a hyphen and two digits that number a
  month from 01 to 12; the year and the month it names.
\<close>

fun month_form :: "string \<Rightarrow> bool" where
  "month_form [y1, y2, y3, y4, h, m1, m2] =
     (is_digit y1 \<and> is_digit y2 \<and> is_digit y3 \<and> is_digit y4 \<and> h = CHR ''-'' \<and>
      is_digit m1 \<and> is_digit m2 \<and>
      1 \<le> digits_value [m1, m2] \<and> digits_value [m1, m2] \<le> 12)"
| "month_form _ = False"

definition year_of :: "string \<Rightarrow> int" where
  "year_of month = int (digits_value (take 4 month))"

definition month_of :: "string \<Rightarrow> int" where
  "month_of month = int (digits_value (drop 5 month))"

text \<open>
  The order the results are to have, on the keys themselves: ascending by date, then by
  start time, then by creation; and the equality of all three keys.
\<close>

definition key_less :: "activity \<Rightarrow> activity \<Rightarrow> bool" where
  "key_less a b =
     (date a < date b \<or>
      (date a = date b \<and>
       (startTime a < startTime b \<or>
        (startTime a = startTime b \<and> createdAt a < createdAt b))))"

definition key_equal :: "activity \<Rightarrow> activity \<Rightarrow> bool" where
  "key_equal a b =
     (date a = date b \<and> startTime a = startTime b \<and> createdAt a = createdAt b)"

section \<open>Examples\<close>

text \<open>The body \<open>{}\<close>, from which the example requests are built by setting fields.\<close>

definition empty_body :: "int body" where
  "empty_body =
     \<lparr> body_date = None, body_endDate = None, body_title = None, body_category = None,
       body_phase = None, body_status = None, body_startTime = None, body_endTime = None,
       body_notes = None, body_isFullDay = JUndefined \<rparr>"

text \<open>A stored activity, given by its identifier and its range and sort keys.\<close>

definition stored :: "oid \<Rightarrow> string \<Rightarrow> string \<Rightarrow> string \<Rightarrow> int \<Rightarrow> activity" where
  "stored i d e st c =
     \<lparr> a_id = i, date = d, endDate = e, isFullDay = (st = []), title = ''Review'',
       category = ''Other'', phase = ''Unspecified'', status = ''Planned'',
       startTime = st, endTime = [], notes_text = [], attachments = [], createdAt = c \<rparr>"

text \<open>
  A cast of route parameters: a string of 24 hexadecimal digits is the identifier it
  spells, whatever the case of its letters (an identifier prints in lower case); a
  string of another length or with another character is no identifier.
\<close>

definition lower_hex :: "char \<Rightarrow> char" where
  "lower_hex c =
     (if c = CHR ''A'' then CHR ''a'' else if c = CHR ''B'' then CHR ''b''
      else if c = CHR ''C'' then CHR ''c'' else if c = CHR ''D'' then CHR ''d''
      else if c = CHR ''E'' then CHR ''e'' else if c = CHR ''F'' then CHR ''f''
      else c)"

definition hex24 :: "string \<Rightarrow> oid option" where
  "hex24 p =
     (if length p = 24 \<and> (\<forall>c \<in> set p. c \<in> set ''0123456789abcdefABCDEF'')
      then Some (map lower_hex p)
      else None)"

text \<open>An upload, and a file part that carries it under a field name.\<close>

definition upload :: "string \<Rightarrow> uploaded_file" where
  "upload n = \<lparr> filename = n, originalname = ''report.pdf'',
                mimetype = ''application/pdf'', file_size = 1024 \<rparr>"

definition part :: "string \<Rightarrow> string \<Rightarrow> file_part" where
  "part f n = \<lparr> part_fieldname = f, part_file = upload n \<rparr>"

section \<open>Properties of creation\<close>

lemma normalise_endDate_ge: "d \<le> normalise_endDate d e"
  by (auto simp add: normalise_endDate_def Let_def not_less)

lemma normalise_endDate_absent: "normalise_endDate d None = d"
  by (simp add: normalise_endDate_def falsy_def)

lemma normalise_endDate_clamp: "x < d \<Longrightarrow> normalise_endDate d (Some x) = d"
  by (simp add: normalise_endDate_def falsy_def Let_def)

lemma normalise_endDate_keep: "x \<noteq> [] \<Longrightarrow> d \<le> x \<Longrightarrow> normalise_endDate d (Some x) = x"
  by (auto simp add: normalise_endDate_def falsy_def Let_def)

lemma normalise_endDate_nonempty: "d \<noteq> [] \<Longrightarrow> normalise_endDate d e \<noteq> []"
  using normalise_endDate_ge [of d e] by (cases "normalise_endDate d e") auto

text \<open>
  What a request with a start date and a title does: the document built from it passes
  the schema's validators, is appended to the collection and is sent back.
\<close>

lemma create_activity_valid:
  assumes "body_date b = Some d" and "d \<noteq> []" and "body_title b = Some t" and "t \<noteq> []"
  shows "\<exists>a. create_activity i now b files s = (Success_activity a, s @ [a]) \<and>
           a_id a = i \<and> date a = d \<and> title a = t \<and> createdAt a = now \<and>
           endDate a = normalise_endDate d (body_endDate b) \<and>
           isFullDay a = fullDayFlag (body_isFullDay b) \<and>
           startTime a = (if fullDayFlag (body_isFullDay b) then []
                          else or_default [] (body_startTime b)) \<and>
           endTime a = (if fullDayFlag (body_isFullDay b) then []
                        else or_default [] (body_endTime b)) \<and>
           category a = or_default ''Other'' (body_category b) \<and>
           phase a = or_default ''Unspecified'' (body_phase b) \<and>
           status a = or_default ''Planned'' (body_status b) \<and>
           notes_text a = or_default [] (body_notes b) \<and>
           attachments a =
             map (to_attachment now) (case files of None \<Rightarrow> [] | Some fs \<Rightarrow> fs)"
  using assms normalise_endDate_nonempty [of d "body_endDate b"]
  by (simp add: create_activity_def save_def Let_def or_default_def)

lemma create_activity_invalid:
  assumes "falsy (body_date b) \<or> falsy (body_title b)"
  shows "create_activity i now b files s = (Failure 400 ''Date and title are required.'', s)"
  using assms
  by (auto simp add: create_activity_def falsy_def split: option.splits)

lemma le_Nil_string: "(d::string) \<le> [] \<Longrightarrow> d = []"
  by (cases d) simp_all

text \<open>
  C1. For every creation input with a non-empty start date and a non-empty title, the
  activity is persisted; when \<open>endDate\<close> is absent (or empty) the persisted \<open>endDate\<close>
  is the start date, when the given \<open>endDate\<close> is lexicographically less than the start
  date it is clamped to the start date without any rejection, an \<open>endDate\<close> not before
  the start date is kept, and so the persisted record always has
  \<open>date \<le> endDate\<close> in the lexicographic order of strings.
\<close>

theorem create_endDate_normalised:
  assumes "body_date b = Some d" and "d \<noteq> []" and "body_title b = Some t" and "t \<noteq> []"
  shows "\<exists>a. create_activity i now b files s = (Success_activity a, s @ [a]) \<and>
           date a = d \<and>
           (falsy (body_endDate b) \<longrightarrow> endDate a = d) \<and>
           (\<forall>x. body_endDate b = Some x \<and> x < d \<longrightarrow> endDate a = d) \<and>
           (\<forall>x. body_endDate b = Some x \<and> d \<le> x \<longrightarrow> endDate a = x) \<and>
           date a \<le> endDate a"
proof -
  obtain a where a: "create_activity i now b files s = (Success_activity a, s @ [a])"
    "date a = d" "endDate a = normalise_endDate d (body_endDate b)"
    using create_activity_valid [OF assms] by blast
  have "falsy (body_endDate b) \<longrightarrow> endDate a = d"
    by (simp add: a(3) normalise_endDate_def)
  moreover have "\<forall>x. body_endDate b = Some x \<and> x < d \<longrightarrow> endDate a = d"
    by (simp add: a(3) normalise_endDate_clamp)
  moreover have "\<forall>x. body_endDate b = Some x \<and> d \<le> x \<longrightarrow> endDate a = x"
  proof (intro allI impI)
    fix x assume x: "body_endDate b = Some x \<and> d \<le> x"
    then have "x \<noteq> []" using assms(2) le_Nil_string by blast
    then show "endDate a = x" using x by (simp add: a(3) normalise_endDate_keep)
  qed
  moreover have "date a \<le> endDate a"
    by (simp add: a(2,3) normalise_endDate_ge)
  ultimately show ?thesis using a(1,2) by blast
qed

theorem create_endDate_normalised_witness:
  "(\<exists>a. create_activity ''a1'' 7
          (empty_body\<lparr>body_date := Some ''2025-03-10'', body_title := Some ''Kickoff''\<rparr>)
          None [] = (Success_activity a, [a]) \<and>
        date a = ''2025-03-10'' \<and> endDate a = ''2025-03-10'') \<and>
   (\<exists>a. create_activity ''a2'' 8
          (empty_body\<lparr>body_date := Some ''2025-03-10'', body_endDate := Some ''2025-03-05'',
                      body_title := Some ''X''\<rparr>)
          None [] = (Success_activity a, [a]) \<and>
        date a = ''2025-03-10'' \<and> endDate a = ''2025-03-10'') \<and>
   (\<exists>a. create_activity ''a3'' 9
          (empty_body\<lparr>body_date := Some ''2025-03-10'', body_endDate := Some ''2025-03-12'',
                      body_title := Some ''Y''\<rparr>)
          None [] = (Success_activity a, [a]) \<and>
        date a = ''2025-03-10'' \<and> endDate a = ''2025-03-12'')"
proof (intro conjI)
  show "\<exists>a. create_activity ''a1'' 7
          (empty_body\<lparr>body_date := Some ''2025-03-10'', body_title := Some ''Kickoff''\<rparr>)
          None [] = (Success_activity a, [a]) \<and>
        date a = ''2025-03-10'' \<and> endDate a = ''2025-03-10''"
    using create_endDate_normalised [of
      "empty_body\<lparr>body_date := Some ''2025-03-10'', body_title := Some ''Kickoff''\<rparr>"
      "''2025-03-10''" "''Kickoff''" "''a1''" 7 None "[]"]
    by (auto simp add: empty_body_def falsy_def)
  show "\<exists>a. create_activity ''a2'' 8
          (empty_body\<lparr>body_date := Some ''2025-03-10'', body_endDate := Some ''2025-03-05'',
                      body_title := Some ''X''\<rparr>)
          None [] = (Success_activity a, [a]) \<and>
        date a = ''2025-03-10'' \<and> endDate a = ''2025-03-10''"
    using create_endDate_normalised [of
      "empty_body\<lparr>body_date := Some ''2025-03-10'', body_endDate := Some ''2025-03-05'',
                  body_title := Some ''X''\<rparr>"
      "''2025-03-10''" "''X''" "''a2''" 8 None "[]"]
    by (auto simp add: empty_body_def falsy_def)
  show "\<exists>a. create_activity ''a3'' 9
          (empty_body\<lparr>body_date := Some ''2025-03-10'', body_endDate := Some ''2025-03-12'',
                      body_title := Some ''Y''\<rparr>)
          None [] = (Success_activity a, [a]) \<and>
        date a = ''2025-03-10'' \<and> endDate a = ''2025-03-12''"
    using create_endDate_normalised [of
      "empty_body\<lparr>body_date := Some ''2025-03-10'', body_endDate := Some ''2025-03-12'',
                  body_title := Some ''Y''\<rparr>"
      "''2025-03-10''" "''Y''" "''a3''" 9 None "[]"]
    by (auto simp add: empty_body_def falsy_def)
qed

text \<open>
  C5. For every creation input whose \<open>isFullDay\<close> field resolves to true (and that has
  a start date and a title, so that it is persisted), the persisted activity has an
  empty \<open>startTime\<close> and an empty \<open>endTime\<close>, whatever times the request gave.
\<close>

theorem create_full_day_clears_times:
  assumes "body_date b = Some d" and "d \<noteq> []" and "body_title b = Some t" and "t \<noteq> []"
    and "fullDayFlag (body_isFullDay b)"
  shows "\<exists>a. create_activity i now b files s = (Success_activity a, s @ [a]) \<and>
           isFullDay a \<and> startTime a = [] \<and> endTime a = []"
  using create_activity_valid [OF assms(1-4), of i now files s] assms(5) by auto

theorem create_full_day_clears_times_witness:
  "fullDayFlag (JStr ''on'' :: int jsval) \<and>
   (\<exists>a. create_activity ''a1'' 7
          (empty_body\<lparr>body_date := Some ''2025-03-10'', body_title := Some ''Audit'',
                      body_startTime := Some ''09:00'', body_endTime := Some ''17:30'',
                      body_isFullDay := JStr ''on''\<rparr>)
          None [] = (Success_activity a, [a]) \<and>
        isFullDay a \<and> startTime a = [] \<and> endTime a = [])"
  using
    create_full_day_clears_times [of
      "empty_body\<lparr>body_date := Some ''2025-03-10'', body_title := Some ''Audit'',
                  body_startTime := Some ''09:00'', body_endTime := Some ''17:30'',
                  body_isFullDay := JStr ''on''\<rparr>"
      "''2025-03-10''" "''Audit''" "''a1''" 7 None "[]"]
  by (simp add: empty_body_def fullDayFlag_def)

text \<open>
  C6. Creation fails with the validation error (status 400) exactly when the start date
  or the title is missing or empty, and then the collection is left as it was: nothing
  is written. In every other case the activity is persisted, and each optional field
  the request leaves out receives its default: category \<open>Other\<close>, phase
  \<open>Unspecified\<close>, status \<open>Planned\<close>, empty notes, empty times, the start date as end
  date, and no full-day flag.
\<close>

theorem create_validation:
  "((\<exists>c m. fst (create_activity i now b files s) = Failure c m) =
      (falsy (body_date b) \<or> falsy (body_title b))) \<and>
   (falsy (body_date b) \<or> falsy (body_title b) \<longrightarrow>
      create_activity i now b files s = (Failure 400 ''Date and title are required.'', s)) \<and>
   (\<not> falsy (body_date b) \<and> \<not> falsy (body_title b) \<longrightarrow>
      (\<exists>a. create_activity i now b files s = (Success_activity a, s @ [a]) \<and>
           (body_category b = None \<longrightarrow> category a = ''Other'') \<and>
           (body_phase b = None \<longrightarrow> phase a = ''Unspecified'') \<and>
           (body_status b = None \<longrightarrow> status a = ''Planned'') \<and>
           (body_notes b = None \<longrightarrow> notes_text a = []) \<and>
           (body_startTime b = None \<longrightarrow> startTime a = []) \<and>
           (body_endTime b = None \<longrightarrow> endTime a = []) \<and>
           (body_endDate b = None \<longrightarrow> endDate a = date a) \<and>
           (body_isFullDay b = JUndefined \<longrightarrow> \<not> isFullDay a)))"
proof (cases "falsy (body_date b) \<or> falsy (body_title b)")
  case True
  then show ?thesis using create_activity_invalid [OF True, of i now files s] by simp
next
  case False
  then obtain d t where dt: "body_date b = Some d" "d \<noteq> []" "body_title b = Some t" "t \<noteq> []"
    by (auto simp add: falsy_def split: option.splits)
  obtain a where a: "create_activity i now b files s = (Success_activity a, s @ [a])"
    "date a = d" "endDate a = normalise_endDate d (body_endDate b)"
    "isFullDay a = fullDayFlag (body_isFullDay b)"
    "startTime a = (if fullDayFlag (body_isFullDay b) then []
                    else or_default [] (body_startTime b))"
    "endTime a = (if fullDayFlag (body_isFullDay b) then []
                  else or_default [] (body_endTime b))"
    "category a = or_default ''Other'' (body_category b)"
    "phase a = or_default ''Unspecified'' (body_phase b)"
    "status a = or_default ''Planned'' (body_status b)"
    "notes_text a = or_default [] (body_notes b)"
    using create_activity_valid [OF dt, of i now files s] by blast
  have "body_category b = None \<longrightarrow> category a = ''Other''"
    and "body_phase b = None \<longrightarrow> phase a = ''Unspecified''"
    and "body_status b = None \<longrightarrow> status a = ''Planned''"
    and "body_notes b = None \<longrightarrow> notes_text a = []"
    and "body_startTime b = None \<longrightarrow> startTime a = []"
    and "body_endTime b = None \<longrightarrow> endTime a = []"
    and "body_endDate b = None \<longrightarrow> endDate a = date a"
    and "body_isFullDay b = JUndefined \<longrightarrow> \<not> isFullDay a"
    by (simp_all add: a or_default_def normalise_endDate_absent fullDayFlag_def)
  then show ?thesis using False a(1) by auto
qed

theorem create_validation_witness:
  "create_activity ''a1'' 7 (empty_body\<lparr>body_title := Some ''Kickoff''\<rparr>) None [] =
     (Failure 400 ''Date and title are required.'', []) \<and>
   create_activity ''a1'' 7 (empty_body\<lparr>body_date := Some ''2025-03-10'', body_title := Some []\<rparr>)
     None [] = (Failure 400 ''Date and title are required.'', []) \<and>
   (\<exists>a. create_activity ''a1'' 7
          (empty_body\<lparr>body_date := Some ''2025-03-10'', body_title := Some ''Kickoff''\<rparr>)
          None [] = (Success_activity a, [a]) \<and>
        category a = ''Other'' \<and> phase a = ''Unspecified'' \<and> status a = ''Planned'' \<and>
        notes_text a = [] \<and> startTime a = [] \<and> endTime a = [] \<and>
        endDate a = date a \<and> \<not> isFullDay a)"
proof (intro conjI)
  show "create_activity ''a1'' 7 (empty_body\<lparr>body_title := Some ''Kickoff''\<rparr>) None [] =
     (Failure 400 ''Date and title are required.'', [])"
    using create_validation [of "''a1''" 7 "empty_body\<lparr>body_title := Some ''Kickoff''\<rparr>" None "[]"]
    by (simp add: empty_body_def falsy_def)
  show "create_activity ''a1'' 7
     (empty_body\<lparr>body_date := Some ''2025-03-10'', body_title := Some []\<rparr>)
     None [] = (Failure 400 ''Date and title are required.'', [])"
    using create_validation [of "''a1''" 7
      "empty_body\<lparr>body_date := Some ''2025-03-10'', body_title := Some []\<rparr>" None "[]"]
    by (simp add: empty_body_def falsy_def)
  show "\<exists>a. create_activity ''a1'' 7
          (empty_body\<lparr>body_date := Some ''2025-03-10'', body_title := Some ''Kickoff''\<rparr>)
          None [] = (Success_activity a, [a]) \<and>
        category a = ''Other'' \<and> phase a = ''Unspecified'' \<and> status a = ''Planned'' \<and>
        notes_text a = [] \<and> startTime a = [] \<and> endTime a = [] \<and>
        endDate a = date a \<and> \<not> isFullDay a"
    using create_validation [of "''a1''" 7
      "empty_body\<lparr>body_date := Some ''2025-03-10'', body_title := Some ''Kickoff''\<rparr>" None "[]"]
    by (auto simp add: empty_body_def falsy_def)
qed

text \<open>
  C8. Creation checks no date format: for every non-empty start date string whatever
  its characters (and a non-empty title), the request is accepted and persisted with
  that very string as its date, and the persisted end date is still not below the
  start date in the lexicographic order, for any end date string given or none.
\<close>

theorem create_accepts_any_date_string:
  assumes "d \<noteq> []" and "t \<noteq> []"
    and "body_date b = Some d" and "body_title b = Some t"
  shows "\<exists>a. fst (create_activity i now b files s) = Success_activity a \<and>
           snd (create_activity i now b files s) = s @ [a] \<and>
           date a = d \<and> date a \<le> endDate a"
proof -
  obtain a where a: "create_activity i now b files s = (Success_activity a, s @ [a])"
    "date a = d" "endDate a = normalise_endDate d (body_endDate b)"
    using create_activity_valid [OF assms(3) assms(1) assms(4) assms(2)] by blast
  then show ?thesis using normalise_endDate_ge [of d "body_endDate b"] by auto
qed

theorem create_accepts_any_date_string_witness:
  "''next tuesday'' \<noteq> [] \<and> ''Standup'' \<noteq> [] \<and>
   (\<exists>a. create_activity ''a1'' 7
          (empty_body\<lparr>body_date := Some ''next tuesday'', body_endDate := Some ''31/12/2025'',
                      body_title := Some ''Standup''\<rparr>)
          None [] = (Success_activity a, [a]) \<and>
        date a = ''next tuesday'' \<and> endDate a = ''next tuesday'' \<and> date a \<le> endDate a)"
  using create_accepts_any_date_string [of "''next tuesday''" "''Standup''"
      "empty_body\<lparr>body_date := Some ''next tuesday'', body_endDate := Some ''31/12/2025'',
                  body_title := Some ''Standup''\<rparr>" "''a1''" 7 None "[]"]
  by (auto simp add: empty_body_def create_activity_def normalise_endDate_def falsy_def
        save_def Let_def or_default_def)

text \<open>
  C9. The \<open>isFullDay\<close> field resolves to true for exactly three values: the boolean
  \<open>true\<close>, the string \<open>true\<close> and the string \<open>on\<close>. Every other value resolves to
  false, among them the strings \<open>1\<close>, \<open>yes\<close> and \<open>True\<close>, every number, the boolean
  \<open>false\<close>, \<open>null\<close> and an absent field; and the flag persisted with an accepted
  request is that resolution.
\<close>

theorem fullDayFlag_exactly_three:
  "(fullDayFlag (v :: 'n jsval) = (v \<in> {JBool True, JStr ''true'', JStr ''on''})) \<and>
   \<not> fullDayFlag (JStr ''1'' :: 'n jsval) \<and>
   \<not> fullDayFlag (JStr ''yes'' :: 'n jsval) \<and>
   \<not> fullDayFlag (JStr ''True'' :: 'n jsval) \<and>
   \<not> fullDayFlag (JNum n :: 'n jsval) \<and>
   \<not> fullDayFlag (JBool False :: 'n jsval) \<and>
   \<not> fullDayFlag (JNull :: 'n jsval) \<and>
   \<not> fullDayFlag (JUndefined :: 'n jsval) \<and>
   (body_date (b :: 'n body) = Some d \<and> d \<noteq> [] \<and> body_title b = Some t \<and> t \<noteq> [] \<longrightarrow>
      (\<exists>a. create_activity i now b files s = (Success_activity a, s @ [a]) \<and>
           isFullDay a = (body_isFullDay b \<in> {JBool True, JStr ''true'', JStr ''on''})))"
proof -
  have "body_date b = Some d \<and> d \<noteq> [] \<and> body_title b = Some t \<and> t \<noteq> [] \<longrightarrow>
      (\<exists>a. create_activity i now b files s = (Success_activity a, s @ [a]) \<and>
           isFullDay a = (body_isFullDay b \<in> {JBool True, JStr ''true'', JStr ''on''}))"
  proof
    assume h: "body_date b = Some d \<and> d \<noteq> [] \<and> body_title b = Some t \<and> t \<noteq> []"
    then obtain a where "create_activity i now b files s = (Success_activity a, s @ [a])"
      "isFullDay a = fullDayFlag (body_isFullDay b)"
      using create_activity_valid [of b d t i now files s] by blast
    then show "\<exists>a. create_activity i now b files s = (Success_activity a, s @ [a]) \<and>
           isFullDay a = (body_isFullDay b \<in> {JBool True, JStr ''true'', JStr ''on''})"
      by (auto simp add: fullDayFlag_def)
  qed
  then show ?thesis by (auto simp add: fullDayFlag_def)
qed

theorem fullDayFlag_exactly_three_witness:
  "fullDayFlag (JBool True :: int jsval) \<and> fullDayFlag (JStr ''true'' :: int jsval) \<and>
   fullDayFlag (JStr ''on'' :: int jsval) \<and> \<not> fullDayFlag (JNum (1::int)) \<and>
   (\<exists>a. create_activity ''a1'' 7
          (empty_body\<lparr>body_date := Some ''2025-03-10'', body_title := Some ''Audit'',
                      body_isFullDay := JNum 1\<rparr>)
          None [] = (Success_activity a, [a]) \<and> \<not> isFullDay a) \<and>
   (\<exists>a. create_activity ''a1'' 7
          (empty_body\<lparr>body_date := Some ''2025-03-10'', body_title := Some ''Audit'',
                      body_isFullDay := JBool True\<rparr>)
          None [] = (Success_activity a, [a]) \<and> isFullDay a)"
proof (intro conjI)
  show "fullDayFlag (JBool True :: int jsval)"
    using fullDayFlag_exactly_three [of "JBool True :: int jsval" 1 empty_body "[]" "[]" "[]" 0 None "[]"]
    by simp
  show "fullDayFlag (JStr ''true'' :: int jsval)"
    using fullDayFlag_exactly_three [of "JStr ''true'' :: int jsval" 1 empty_body "[]" "[]" "[]" 0 None "[]"]
    by simp
  show "fullDayFlag (JStr ''on'' :: int jsval)"
    using fullDayFlag_exactly_three [of "JStr ''on'' :: int jsval" 1 empty_body "[]" "[]" "[]" 0 None "[]"]
    by simp
  show "\<not> fullDayFlag (JNum (1::int))"
    using fullDayFlag_exactly_three [of "JNum (1::int)" 1 empty_body "[]" "[]" "[]" 0 None "[]"]
    by simp
  show "\<exists>a. create_activity ''a1'' 7
          (empty_body\<lparr>body_date := Some ''2025-03-10'', body_title := Some ''Audit'',
                      body_isFullDay := JNum 1\<rparr>)
          None [] = (Success_activity a, [a]) \<and> \<not> isFullDay a"
    using fullDayFlag_exactly_three [of JUndefined 0
      "empty_body\<lparr>body_date := Some ''2025-03-10'', body_title := Some ''Audit'',
                  body_isFullDay := JNum 1\<rparr>" "''2025-03-10''" "''Audit''" "''a1''" 7 None "[]"]
    by (auto simp add: empty_body_def)
  show "\<exists>a. create_activity ''a1'' 7
          (empty_body\<lparr>body_date := Some ''2025-03-10'', body_title := Some ''Audit'',
                      body_isFullDay := JBool True\<rparr>)
          None [] = (Success_activity a, [a]) \<and> isFullDay a"
    using fullDayFlag_exactly_three [of JUndefined 0
      "empty_body\<lparr>body_date := Some ''2025-03-10'', body_title := Some ''Audit'',
                  body_isFullDay := JBool True\<rparr>" "''2025-03-10''" "''Audit''" "''a1''" 7 None "[]"]
    by (auto simp add: empty_body_def)
qed

section \<open>Properties of the sort order\<close>

lemma sort_cmp_less: "(sort_cmp a b = - 1) = key_less a b"
  by (auto simp add: sort_cmp_def cmp_asc_def key_less_def)

lemma sort_cmp_equal: "(sort_cmp a b = 0) = key_equal a b"
  by (auto simp add: sort_cmp_def cmp_asc_def key_equal_def)

lemma sort_cmp_greater: "(sort_cmp a b = 1) = key_less b a"
  by (auto simp add: sort_cmp_def cmp_asc_def key_less_def)

lemma sort_cmp_range: "sort_cmp a b = - 1 \<or> sort_cmp a b = 0 \<or> sort_cmp a b = 1"
  by (simp add: sort_cmp_def cmp_asc_def)

lemma sort_cmp_le: "(sort_cmp a b \<le> 0) = (key_less a b \<or> key_equal a b)"
  using sort_cmp_range [of a b] sort_cmp_less [of a b] sort_cmp_equal [of a b] by auto

lemma sort_cmp_flip: "sort_cmp b a = - sort_cmp a b"
  by (auto simp add: sort_cmp_def cmp_asc_def)

lemma key_less_trans: "key_less a b \<Longrightarrow> key_less b c \<Longrightarrow> key_less a c"
  by (auto simp add: key_less_def)

lemma key_equal_less: "key_equal a b \<Longrightarrow> key_less b c \<Longrightarrow> key_less a c"
  by (simp add: key_less_def key_equal_def)

lemma key_less_equal: "key_less a b \<Longrightarrow> key_equal b c \<Longrightarrow> key_less a c"
  by (simp add: key_less_def key_equal_def)

lemma key_equal_trans: "key_equal a b \<Longrightarrow> key_equal b c \<Longrightarrow> key_equal a c"
  by (simp add: key_equal_def)

lemma sort_cmp_trans: "sort_cmp a b \<le> 0 \<Longrightarrow> sort_cmp b c \<le> 0 \<Longrightarrow> sort_cmp a c \<le> 0"
  unfolding sort_cmp_le
  using key_less_trans key_equal_less key_less_equal key_equal_trans by blast

lemma sort_cmp_total: "\<not> sort_cmp a b \<le> 0 \<Longrightarrow> sort_cmp b a \<le> 0"
  using sort_cmp_flip [of a b] by simp

lemma set_insert_by: "set (insert_by c x xs) = insert x (set xs)"
  by (induction xs) auto

lemma mset_insert_by: "mset (insert_by c x xs) = add_mset x (mset xs)"
  by (induction xs) auto

lemma sorted_insert_by:
  "sorted_wrt (\<lambda>a b. sort_cmp a b \<le> 0) xs \<Longrightarrow>
   sorted_wrt (\<lambda>a b. sort_cmp a b \<le> 0) (insert_by sort_cmp x xs)"
proof (induction xs)
  case Nil
  then show ?case by simp
next
  case (Cons y ys)
  show ?case
  proof (cases "sort_cmp x y \<le> 0")
    case True
    then have "\<forall>z \<in> set ys. sort_cmp x z \<le> 0"
      using Cons.prems sort_cmp_trans by auto
    then show ?thesis using True Cons.prems by simp
  next
    case False
    then have "sort_cmp y x \<le> 0" by (rule sort_cmp_total)
    then show ?thesis using False Cons by (auto simp add: set_insert_by)
  qed
qed

lemma mset_sort_activities: "mset (sort_activities xs) = mset xs"
  by (induction xs) (simp_all add: sort_activities_def mset_insert_by)

lemma set_sort_activities: "set (sort_activities xs) = set xs"
  using mset_sort_activities [of xs] by (metis set_mset_mset)

lemma sorted_sort_activities: "sorted_wrt (\<lambda>a b. sort_cmp a b \<le> 0) (sort_activities xs)"
  by (induction xs) (simp_all add: sort_activities_def sorted_insert_by)

section \<open>Properties of the queries\<close>

lemma get_activities_day_result:
  "d \<noteq> [] \<Longrightarrow>
   get_activities_day (Some d) s =
     Success_activities (sort_activities (filter (\<lambda>a. date a \<le> d \<and> d \<le> endDate a) s))"
  by (simp add: get_activities_day_def)

text \<open>
  C2. The day query fails with the validation error (status 400) when the date is absent
  or empty. For every other date \<open>d\<close> it returns a list in which every stored activity
  \<open>A\<close> with \<open>date A \<le> d\<close> and \<open>d \<le> endDate A\<close> (lexicographically) occurs as often as
  it is stored, and no other activity occurs: an activity spanning several days is
  returned for each day of its range, and an activity whose range does not contain \<open>d\<close>
  is not returned.
\<close>

theorem day_query_contains_point:
  "get_activities_day None s = Failure 400 ''Date is required.'' \<and>
   get_activities_day (Some []) s = Failure 400 ''Date is required.'' \<and>
   (d \<noteq> [] \<longrightarrow>
      (\<exists>xs. get_activities_day (Some d) s = Success_activities xs \<and>
            mset xs = filter_mset (\<lambda>A. date A \<le> d \<and> d \<le> endDate A) (mset s) \<and>
            (\<forall>A. (A \<in> set xs) = (A \<in> set s \<and> date A \<le> d \<and> d \<le> endDate A))))"
proof -
  have "d \<noteq> [] \<longrightarrow>
      (\<exists>xs. get_activities_day (Some d) s = Success_activities xs \<and>
            mset xs = filter_mset (\<lambda>A. date A \<le> d \<and> d \<le> endDate A) (mset s) \<and>
            (\<forall>A. (A \<in> set xs) = (A \<in> set s \<and> date A \<le> d \<and> d \<le> endDate A)))"
  proof
    assume "d \<noteq> []"
    then have "get_activities_day (Some d) s =
      Success_activities (sort_activities (filter (\<lambda>a. date a \<le> d \<and> d \<le> endDate a) s))"
      by (rule get_activities_day_result)
    moreover have "mset (sort_activities (filter (\<lambda>a. date a \<le> d \<and> d \<le> endDate a) s)) =
      filter_mset (\<lambda>A. date A \<le> d \<and> d \<le> endDate A) (mset s)"
      by (simp add: mset_sort_activities)
    moreover have "\<forall>A. (A \<in> set (sort_activities (filter (\<lambda>a. date a \<le> d \<and> d \<le> endDate a) s))) =
      (A \<in> set s \<and> date A \<le> d \<and> d \<le> endDate A)"
      by (simp add: set_sort_activities)
    ultimately show "\<exists>xs. get_activities_day (Some d) s = Success_activities xs \<and>
            mset xs = filter_mset (\<lambda>A. date A \<le> d \<and> d \<le> endDate A) (mset s) \<and>
            (\<forall>A. (A \<in> set xs) = (A \<in> set s \<and> date A \<le> d \<and> d \<le> endDate A))"
      by blast
  qed
  then show ?thesis by (simp add: get_activities_day_def)
qed

theorem day_query_contains_point_witness:
  "''2025-02-01'' \<noteq> [] \<and>
   (\<exists>xs. get_activities_day (Some ''2025-02-01'')
           [stored ''a1'' ''2025-01-30'' ''2025-02-02'' ''09:00'' 1,
            stored ''a2'' ''2025-02-02'' ''2025-02-03'' [] 2,
            stored ''a3'' ''2025-01-10'' ''2025-01-31'' [] 3] = Success_activities xs \<and>
         stored ''a1'' ''2025-01-30'' ''2025-02-02'' ''09:00'' 1 \<in> set xs \<and>
         stored ''a2'' ''2025-02-02'' ''2025-02-03'' [] 2 \<notin> set xs \<and>
         stored ''a3'' ''2025-01-10'' ''2025-01-31'' [] 3 \<notin> set xs)"
  using day_query_contains_point [of
      "[stored ''a1'' ''2025-01-30'' ''2025-02-02'' ''09:00'' 1,
        stored ''a2'' ''2025-02-02'' ''2025-02-03'' [] 2,
        stored ''a3'' ''2025-01-10'' ''2025-01-31'' [] 3]" "''2025-02-01''"]
  by (auto simp add: stored_def)

text \<open>
  C4. The day query and the month query return their results ordered ascending by
  \<open>date\<close>, then ascending by \<open>startTime\<close>, where the empty string comes before every
  non-empty time, then ascending by \<open>createdAt\<close>. The comparison behind the order
  answers -1, 0 or 1; it is antisymmetric and transitive, any two activities are
  comparable, and it answers 0 only when all three keys are equal.
\<close>

theorem query_results_ordered:
  "(\<forall>d xs. get_activities_day d s = Success_activities xs \<longrightarrow>
      sorted_wrt (\<lambda>a b. key_less a b \<or> key_equal a b) xs) \<and>
   (\<forall>m xs. get_activities m s = Success_activities xs \<longrightarrow>
      sorted_wrt (\<lambda>a b. key_less a b \<or> key_equal a b) xs) \<and>
   (sort_cmp a b = - 1) =
      (date a < date b \<or>
       (date a = date b \<and>
        (startTime a < startTime b \<or>
         (startTime a = startTime b \<and> createdAt a < createdAt b)))) \<and>
   (sort_cmp a b = 0) =
      (date a = date b \<and> startTime a = startTime b \<and> createdAt a = createdAt b) \<and>
   (sort_cmp a b = 1) = (sort_cmp b a = - 1) \<and>
   (sort_cmp a b = - 1 \<or> sort_cmp a b = 0 \<or> sort_cmp a b = 1) \<and>
   (sort_cmp a b \<le> 0 \<and> sort_cmp b c \<le> 0 \<longrightarrow> sort_cmp a c \<le> 0) \<and>
   (date a = date b \<and> startTime a = [] \<and> startTime b \<noteq> [] \<longrightarrow> sort_cmp a b = - 1)"
proof -
  have sorted: "sorted_wrt (\<lambda>a b. key_less a b \<or> key_equal a b) (sort_activities ys)" for ys
    using sorted_sort_activities [of ys] by (simp add: sort_cmp_le)
  have day: "\<forall>d xs. get_activities_day d s = Success_activities xs \<longrightarrow>
      sorted_wrt (\<lambda>a b. key_less a b \<or> key_equal a b) xs"
    by (auto simp add: get_activities_day_def sorted split: option.splits if_splits)
  have month: "\<forall>m xs. get_activities m s = Success_activities xs \<longrightarrow>
      sorted_wrt (\<lambda>a b. key_less a b \<or> key_equal a b) xs"
    by (auto simp add: get_activities_def Let_def sorted)
  have less: "(sort_cmp a b = - 1) =
      (date a < date b \<or>
       (date a = date b \<and>
        (startTime a < startTime b \<or>
         (startTime a = startTime b \<and> createdAt a < createdAt b))))"
    by (simp add: sort_cmp_less key_less_def)
  have equal: "(sort_cmp a b = 0) =
      (date a = date b \<and> startTime a = startTime b \<and> createdAt a = createdAt b)"
    by (simp add: sort_cmp_equal key_equal_def)
  have flip: "(sort_cmp a b = 1) = (sort_cmp b a = - 1)"
    by (simp add: sort_cmp_greater sort_cmp_less)
  have trans: "sort_cmp a b \<le> 0 \<and> sort_cmp b c \<le> 0 \<longrightarrow> sort_cmp a c \<le> 0"
    using sort_cmp_trans by blast
  have empty_first: "date a = date b \<and> startTime a = [] \<and> startTime b \<noteq> [] \<longrightarrow> sort_cmp a b = - 1"
  proof
    assume h: "date a = date b \<and> startTime a = [] \<and> startTime b \<noteq> []"
    then have "startTime a < startTime b" by (cases "startTime b") simp_all
    then show "sort_cmp a b = - 1" using h by (simp add: sort_cmp_less key_less_def)
  qed
  show ?thesis
    using day month less equal flip sort_cmp_range [of a b] trans empty_first by blast
qed

theorem query_results_ordered_witness:
  "get_activities_day (Some ''2025-02-01'')
     [stored ''a1'' ''2025-01-30'' ''2025-02-02'' ''09:00'' 1,
      stored ''a2'' ''2025-02-01'' ''2025-02-03'' ''08:00'' 2,
      stored ''a3'' ''2025-02-01'' ''2025-02-01'' [] 4,
      stored ''a4'' ''2025-02-01'' ''2025-02-01'' [] 3] =
   Success_activities
     [stored ''a1'' ''2025-01-30'' ''2025-02-02'' ''09:00'' 1,
      stored ''a4'' ''2025-02-01'' ''2025-02-01'' [] 3,
      stored ''a3'' ''2025-02-01'' ''2025-02-01'' [] 4,
      stored ''a2'' ''2025-02-01'' ''2025-02-03'' ''08:00'' 2] \<and>
   sorted_wrt (\<lambda>a b. key_less a b \<or> key_equal a b)
     [stored ''a1'' ''2025-01-30'' ''2025-02-02'' ''09:00'' 1,
      stored ''a4'' ''2025-02-01'' ''2025-02-01'' [] 3,
      stored ''a3'' ''2025-02-01'' ''2025-02-01'' [] 4,
      stored ''a2'' ''2025-02-01'' ''2025-02-03'' ''08:00'' 2] \<and>
   sort_cmp (stored ''a3'' ''2025-02-01'' ''2025-02-01'' [] 4)
            (stored ''a2'' ''2025-02-01'' ''2025-02-03'' ''08:00'' 2) = - 1 \<and>
   sort_cmp (stored ''a4'' ''2025-02-01'' ''2025-02-01'' [] 3)
            (stored ''a3'' ''2025-02-01'' ''2025-02-01'' [] 4) \<le> 0 \<and>
   sort_cmp (stored ''a4'' ''2025-02-01'' ''2025-02-01'' [] 3)
            (stored ''a2'' ''2025-02-01'' ''2025-02-03'' ''08:00'' 2) \<le> 0"
proof -
  let ?s = "[stored ''a1'' ''2025-01-30'' ''2025-02-02'' ''09:00'' 1,
      stored ''a2'' ''2025-02-01'' ''2025-02-03'' ''08:00'' 2,
      stored ''a3'' ''2025-02-01'' ''2025-02-01'' [] 4,
      stored ''a4'' ''2025-02-01'' ''2025-02-01'' [] 3]"
  let ?r = "[stored ''a1'' ''2025-01-30'' ''2025-02-02'' ''09:00'' 1,
      stored ''a4'' ''2025-02-01'' ''2025-02-01'' [] 3,
      stored ''a3'' ''2025-02-01'' ''2025-02-01'' [] 4,
      stored ''a2'' ''2025-02-01'' ''2025-02-03'' ''08:00'' 2]"
  have run: "get_activities_day (Some ''2025-02-01'') ?s = Success_activities ?r"
    by (simp add: get_activities_day_def sort_activities_def sort_cmp_def cmp_asc_def stored_def)
  have all: "(\<forall>d xs. get_activities_day d ?s = Success_activities xs \<longrightarrow>
      sorted_wrt (\<lambda>a b. key_less a b \<or> key_equal a b) xs)"
    and e: "date (stored ''a3'' ''2025-02-01'' ''2025-02-01'' [] 4) =
         date (stored ''a2'' ''2025-02-01'' ''2025-02-03'' ''08:00'' 2) \<and>
       startTime (stored ''a3'' ''2025-02-01'' ''2025-02-01'' [] 4) = [] \<and>
       startTime (stored ''a2'' ''2025-02-01'' ''2025-02-03'' ''08:00'' 2) \<noteq> [] \<longrightarrow>
       sort_cmp (stored ''a3'' ''2025-02-01'' ''2025-02-01'' [] 4)
            (stored ''a2'' ''2025-02-01'' ''2025-02-03'' ''08:00'' 2) = - 1"
    using query_results_ordered [of ?s "stored ''a3'' ''2025-02-01'' ''2025-02-01'' [] 4"
        "stored ''a2'' ''2025-02-01'' ''2025-02-03'' ''08:00'' 2"
        "stored ''a2'' ''2025-02-01'' ''2025-02-03'' ''08:00'' 2"]
    by blast+
  have t: "sort_cmp (stored ''a4'' ''2025-02-01'' ''2025-02-01'' [] 3)
            (stored ''a3'' ''2025-02-01'' ''2025-02-01'' [] 4) \<le> 0 \<and>
      sort_cmp (stored ''a3'' ''2025-02-01'' ''2025-02-01'' [] 4)
            (stored ''a2'' ''2025-02-01'' ''2025-02-03'' ''08:00'' 2) \<le> 0 \<longrightarrow>
      sort_cmp (stored ''a4'' ''2025-02-01'' ''2025-02-01'' [] 3)
            (stored ''a2'' ''2025-02-01'' ''2025-02-03'' ''08:00'' 2) \<le> 0"
    using query_results_ordered [of ?s "stored ''a4'' ''2025-02-01'' ''2025-02-01'' [] 3"
        "stored ''a3'' ''2025-02-01'' ''2025-02-01'' [] 4"
        "stored ''a2'' ''2025-02-01'' ''2025-02-03'' ''08:00'' 2"]
    by blast
  have s1: "sorted_wrt (\<lambda>a b. key_less a b \<or> key_equal a b) ?r"
    using all run by blast
  have s2: "sort_cmp (stored ''a3'' ''2025-02-01'' ''2025-02-01'' [] 4)
            (stored ''a2'' ''2025-02-01'' ''2025-02-03'' ''08:00'' 2) = - 1"
    using e by (simp add: stored_def)
  have s3: "sort_cmp (stored ''a4'' ''2025-02-01'' ''2025-02-01'' [] 3)
            (stored ''a3'' ''2025-02-01'' ''2025-02-01'' [] 4) \<le> 0"
    by (simp add: sort_cmp_def cmp_asc_def stored_def)
  have s4: "sort_cmp (stored ''a4'' ''2025-02-01'' ''2025-02-01'' [] 3)
            (stored ''a2'' ''2025-02-01'' ''2025-02-03'' ''08:00'' 2) \<le> 0"
    using t s2 s3 by simp
  show ?thesis using run s1 s2 s3 s4 by blast
qed

section \<open>Properties of deletion\<close>

lemma delete_one_absent:
  "\<forall>a \<in> set s. a_id a \<noteq> i \<Longrightarrow> delete_one i s = s"
  by (induction s) auto

lemma delete_one_removes:
  "distinct (map a_id s) \<Longrightarrow> \<forall>a \<in> set (delete_one i s). a_id a \<noteq> i"
  by (induction s) (auto simp add: image_iff)

lemma delete_one_subset: "set (delete_one i s) \<subseteq> set s"
  by (induction s) auto

text \<open>A route parameter that is no identifier is answered with status 500, and nothing changes.\<close>

lemma delete_activity_no_identifier:
  "cast_id p = None \<Longrightarrow> delete_activity cast_id p s = (Failure 500 ''Server error.'', s)"
  by (simp add: delete_activity_def findByIdAndDelete_def)

text \<open>
  Deleting is not a success for every route parameter: \<open>abc\<close> is the identifier of no
  stored activity, and the request to delete it is answered with status 500.
\<close>

theorem delete_no_identifier_counterexample:
  "a_id (stored ''65f0c0ffee65f0c0ffee0002'' ''2025-01-30'' ''2025-02-02'' [] 1) \<noteq> ''abc'' \<and>
   delete_activity hex24 ''abc''
     [stored ''65f0c0ffee65f0c0ffee0002'' ''2025-01-30'' ''2025-02-02'' [] 1] =
     (Failure 500 ''Server error.'',
      [stored ''65f0c0ffee65f0c0ffee0002'' ''2025-01-30'' ''2025-02-02'' [] 1]) \<and>
   fst (delete_activity hex24 ''abc''
     [stored ''65f0c0ffee65f0c0ffee0002'' ''2025-01-30'' ''2025-02-02'' [] 1]) \<noteq> Success"
  by (simp add: delete_activity_def findByIdAndDelete_def hex24_def stored_def)

text \<open>
  C7, amended. For every route parameter that the database layer casts to an
  identifier, deleting it when no stored activity has that identifier answers success
  (there is no not-found error) and leaves the collection as it was; deleting such a
  parameter always answers success, so does deleting it a second time, and with the
  identifiers of the collection unique, as the database keeps them, the second deletion
  changes nothing. A route parameter that is no identifier is answered with status 500
  and the collection is left as it was.
\<close>

theorem delete_by_identifier:
  "(cast_id p = None \<longrightarrow>
      delete_activity cast_id p s = (Failure 500 ''Server error.'', s)) \<and>
   (\<forall>i. cast_id p = Some i \<longrightarrow>
      ((\<forall>a \<in> set s. a_id a \<noteq> i) \<longrightarrow> delete_activity cast_id p s = (Success, s)) \<and>
      fst (delete_activity cast_id p s) = Success \<and>
      fst (delete_activity cast_id p (snd (delete_activity cast_id p s))) = Success \<and>
      (distinct (map a_id s) \<longrightarrow>
         snd (delete_activity cast_id p (snd (delete_activity cast_id p s))) =
         snd (delete_activity cast_id p s)))"
proof (intro conjI allI impI)
  assume "cast_id p = None"
  then show "delete_activity cast_id p s = (Failure 500 ''Server error.'', s)"
    by (rule delete_activity_no_identifier)
next
  fix i assume c: "cast_id p = Some i"
  have del: "delete_activity cast_id p s' = (Success, delete_one i s')" for s'
    using c by (simp add: delete_activity_def findByIdAndDelete_def)
  show "fst (delete_activity cast_id p s) = Success"
    and "fst (delete_activity cast_id p (snd (delete_activity cast_id p s))) = Success"
    by (simp_all add: del)
  show "delete_activity cast_id p s = (Success, s)" if "\<forall>a \<in> set s. a_id a \<noteq> i"
    using that by (simp add: del delete_one_absent)
  show "snd (delete_activity cast_id p (snd (delete_activity cast_id p s))) =
      snd (delete_activity cast_id p s)" if "distinct (map a_id s)"
    using that by (simp add: del delete_one_absent delete_one_removes)
qed

theorem delete_by_identifier_witness:
  "hex24 ''abc'' = None \<and>
   delete_activity hex24 ''abc''
     [stored ''65f0c0ffee65f0c0ffee0002'' ''2025-01-30'' ''2025-02-02'' [] 1] =
     (Failure 500 ''Server error.'',
      [stored ''65f0c0ffee65f0c0ffee0002'' ''2025-01-30'' ''2025-02-02'' [] 1]) \<and>
   hex24 ''65f0c0ffee65f0c0ffee0001'' = Some ''65f0c0ffee65f0c0ffee0001'' \<and>
   delete_activity hex24 ''65f0c0ffee65f0c0ffee0001''
     [stored ''65f0c0ffee65f0c0ffee0002'' ''2025-01-30'' ''2025-02-02'' [] 1] =
     (Success, [stored ''65f0c0ffee65f0c0ffee0002'' ''2025-01-30'' ''2025-02-02'' [] 1]) \<and>
   hex24 ''65F0C0FFEE65F0C0FFEE0002'' = Some ''65f0c0ffee65f0c0ffee0002'' \<and>
   delete_activity hex24 ''65F0C0FFEE65F0C0FFEE0002''
     [stored ''65f0c0ffee65f0c0ffee0002'' ''2025-01-30'' ''2025-02-02'' [] 1] = (Success, []) \<and>
   delete_activity hex24 ''65F0C0FFEE65F0C0FFEE0002'' [] = (Success, [])"
proof -
  let ?s = "[stored ''65f0c0ffee65f0c0ffee0002'' ''2025-01-30'' ''2025-02-02'' [] 1]"
  have c0: "hex24 ''abc'' = None"
    and c1: "hex24 ''65f0c0ffee65f0c0ffee0001'' = Some ''65f0c0ffee65f0c0ffee0001''"
    and c2: "hex24 ''65F0C0FFEE65F0C0FFEE0002'' = Some ''65f0c0ffee65f0c0ffee0002''"
    by (simp_all add: hex24_def lower_hex_def)
  have "delete_activity hex24 ''abc'' ?s = (Failure 500 ''Server error.'', ?s)"
    using c0 delete_by_identifier [of hex24 "''abc''" ?s] by simp
  moreover have "delete_activity hex24 ''65f0c0ffee65f0c0ffee0001'' ?s = (Success, ?s)"
    using c1 delete_by_identifier [of hex24 "''65f0c0ffee65f0c0ffee0001''" ?s]
    by (simp add: stored_def)
  moreover have "delete_activity hex24 ''65F0C0FFEE65F0C0FFEE0002'' [] = (Success, [])"
    using c2 delete_by_identifier [of hex24 "''65F0C0FFEE65F0C0FFEE0002''" "[]"] by simp
  moreover have "delete_activity hex24 ''65F0C0FFEE65F0C0FFEE0002'' ?s = (Success, [])"
    by (simp add: delete_activity_def findByIdAndDelete_def c2 stored_def)
  ultimately show ?thesis using c0 c1 c2 by simp
qed

section \<open>Properties of the upload limit\<close>

lemma upload_array_files:
  "upload_array name n ps = Inr fs \<Longrightarrow> fs = map part_file ps \<and> length ps \<le> n"
proof (induction ps arbitrary: n fs)
  case Nil
  then show ?case by simp
next
  case (Cons p ps)
  from Cons.prems have ok: "part_fieldname p = name" "n \<noteq> 0"
    by (auto split: if_splits)
  then obtain fs' where fs': "upload_array name (n - 1) ps = Inr fs'" "fs = part_file p # fs'"
    using Cons.prems by (auto split: sum.splits)
  from Cons.IH [OF fs'(1)] have "fs' = map part_file ps" "length ps \<le> n - 1" by simp_all
  then show ?case using fs'(2) ok(2) by auto
qed

lemma upload_array_names:
  "upload_array name n ps = Inr fs \<Longrightarrow> \<forall>p \<in> set ps. part_fieldname p = name"
  by (induction ps arbitrary: n fs) (auto split: if_splits sum.splits)

lemma upload_array_error: "upload_array name n ps = Inl e \<Longrightarrow> e = MulterError"
  by (induction ps arbitrary: n) (auto split: if_splits sum.splits)

lemma upload_array_too_many:
  "n < length ps \<Longrightarrow> upload_array name n ps = Inl MulterError"
proof (cases "upload_array name n ps")
  case (Inl e)
  assume "n < length ps"
  show ?thesis using Inl upload_array_error [OF Inl] by simp
next
  case (Inr fs)
  assume "n < length ps"
  then show ?thesis using upload_array_files [OF Inr] by simp
qed

lemma create_activity_result:
  "create_activity i now b files s = (Failure 400 ''Date and title are required.'', s) \<or>
   (\<exists>a. create_activity i now b files s = (Success_activity a, s @ [a]) \<and>
        attachments a = map (to_attachment now) (case files of None \<Rightarrow> [] | Some fs \<Rightarrow> fs))"
proof (cases "falsy (body_date b) \<or> falsy (body_title b)")
  case True
  then show ?thesis using create_activity_invalid by blast
next
  case False
  then obtain d t where "body_date b = Some d" "d \<noteq> []" "body_title b = Some t" "t \<noteq> []"
    by (auto simp add: falsy_def split: option.splits)
  from create_activity_valid [OF this, of i now files s] show ?thesis by blast
qed

lemma post_activities_result:
  "(\<exists>c m. post_activities i now r s = (Failure c m, s)) \<or>
   (\<exists>a. post_activities i now r s = (Success_activity a, s @ [a]) \<and>
        length (attachments a) \<le> 10)"
proof (cases "req_parts r")
  case None
  then show ?thesis
    using create_activity_result [of i now "req_body r" None s]
    by (auto simp add: post_activities_def)
next
  case (Some ps)
  show ?thesis
  proof (cases "upload_array ''files'' 10 ps")
    case (Inl e)
    then show ?thesis using Some by (simp add: post_activities_def)
  next
    case (Inr fs)
    then have "length fs \<le> 10" using upload_array_files [OF Inr] by simp
    then show ?thesis
      using create_activity_result [of i now "req_body r" "Some fs" s] Some Inr
      by (auto simp add: post_activities_def)
  qed
qed

text \<open>
  C10. A creation request is accepted with at most 10 uploaded files, all under the
  field name \<open>files\<close>. A request that carries more than 10 file parts, or a file part
  under another field name, is answered with an error by the upload middleware, the
  handler is not run and the collection is left as it was. Every activity the route
  persists has at most 10 attachments, so a collection whose activities have at most 10
  attachments each stays so.
\<close>

theorem upload_limit:
  "(\<forall>ps. req_parts r = Some ps \<and> 10 < length ps \<longrightarrow>
      post_activities i now r s = (Failure 500 ''Unexpected field'', s)) \<and>
   (\<forall>ps. req_parts r = Some ps \<and> (\<exists>p \<in> set ps. part_fieldname p \<noteq> ''files'') \<longrightarrow>
      post_activities i now r s = (Failure 500 ''Unexpected field'', s)) \<and>
   (\<forall>a s'. post_activities i now r s = (Success_activity a, s') \<longrightarrow>
      s' = s @ [a] \<and> length (attachments a) \<le> 10) \<and>
   ((\<forall>a \<in> set s. length (attachments a) \<le> 10) \<longrightarrow>
      (\<forall>a \<in> set (snd (post_activities i now r s)). length (attachments a) \<le> 10))"
proof -
  have many: "\<forall>ps. req_parts r = Some ps \<and> 10 < length ps \<longrightarrow>
      post_activities i now r s = (Failure 500 ''Unexpected field'', s)"
    by (simp add: post_activities_def upload_array_too_many)
  have other: "\<forall>ps. req_parts r = Some ps \<and> (\<exists>p \<in> set ps. part_fieldname p \<noteq> ''files'') \<longrightarrow>
      post_activities i now r s = (Failure 500 ''Unexpected field'', s)"
  proof (intro allI impI)
    fix ps assume h: "req_parts r = Some ps \<and> (\<exists>p \<in> set ps. part_fieldname p \<noteq> ''files'')"
    have "upload_array ''files'' 10 ps = Inl MulterError"
    proof (cases "upload_array ''files'' 10 ps")
      case (Inl e)
      then show ?thesis using upload_array_error by blast
    next
      case (Inr fs)
      then have "\<forall>p \<in> set ps. part_fieldname p = ''files''" by (rule upload_array_names)
      then show ?thesis using h by blast
    qed
    then show "post_activities i now r s = (Failure 500 ''Unexpected field'', s)"
      using h by (simp add: post_activities_def)
  qed
  have one: "\<forall>a s'. post_activities i now r s = (Success_activity a, s') \<longrightarrow>
      s' = s @ [a] \<and> length (attachments a) \<le> 10"
    using post_activities_result [of i now r s] by auto
  have inv: "(\<forall>a \<in> set s. length (attachments a) \<le> 10) \<longrightarrow>
      (\<forall>a \<in> set (snd (post_activities i now r s)). length (attachments a) \<le> 10)"
    using post_activities_result [of i now r s] by auto
  show ?thesis using many other one inv by blast
qed

theorem upload_limit_witness:
  "post_activities ''a1'' 7
     \<lparr> req_body = empty_body\<lparr>body_date := Some ''2025-03-10'', body_title := Some ''Audit''\<rparr>,
       req_parts = Some (map (part ''files'') [''f0'', ''f1'', ''f2'', ''f3'', ''f4'', ''f5'',
                                                ''f6'', ''f7'', ''f8'', ''f9'', ''f10'']) \<rparr> [] =
     (Failure 500 ''Unexpected field'', []) \<and>
   post_activities ''a1'' 7
     \<lparr> req_body = empty_body\<lparr>body_date := Some ''2025-03-10'', body_title := Some ''Audit''\<rparr>,
       req_parts = Some [part ''files'' ''f0'', part ''photo'' ''f1''] \<rparr> [] =
     (Failure 500 ''Unexpected field'', []) \<and>
   (\<exists>a. post_activities ''a1'' 7
     \<lparr> req_body = empty_body\<lparr>body_date := Some ''2025-03-10'', body_title := Some ''Audit''\<rparr>,
       req_parts = Some (map (part ''files'') [''f0'', ''f1'', ''f2'', ''f3'', ''f4'', ''f5'',
                                                ''f6'', ''f7'', ''f8'', ''f9'']) \<rparr> [] =
     (Success_activity a, [a]) \<and> length (attachments a) = 10)"
proof (intro conjI)
  let ?b = "empty_body\<lparr>body_date := Some ''2025-03-10'', body_title := Some ''Audit''\<rparr>"
  let ?r11 = "\<lparr> req_body = ?b,
       req_parts = Some (map (part ''files'') [''f0'', ''f1'', ''f2'', ''f3'', ''f4'', ''f5'',
                                                ''f6'', ''f7'', ''f8'', ''f9'', ''f10'']) \<rparr>"
  let ?r2 = "\<lparr> req_body = ?b, req_parts = Some [part ''files'' ''f0'', part ''photo'' ''f1''] \<rparr>"
  let ?r10 = "\<lparr> req_body = ?b,
       req_parts = Some (map (part ''files'') [''f0'', ''f1'', ''f2'', ''f3'', ''f4'', ''f5'',
                                                ''f6'', ''f7'', ''f8'', ''f9'']) \<rparr>"
  show "post_activities ''a1'' 7 ?r11 [] = (Failure 500 ''Unexpected field'', [])"
    using upload_limit [of ?r11 "''a1''" 7 "[]"] by simp
  show "post_activities ''a1'' 7 ?r2 [] = (Failure 500 ''Unexpected field'', [])"
    using upload_limit [of ?r2 "''a1''" 7 "[]"] by (simp add: part_def)
  have run: "\<exists>a. post_activities ''a1'' 7 ?r10 [] = (Success_activity a, [a]) \<and>
      length (attachments a) = 10"
    by (simp add: post_activities_def part_def create_activity_def empty_body_def save_def
          normalise_endDate_def falsy_def Let_def)
  then show "\<exists>a. post_activities ''a1'' 7 ?r10 [] = (Success_activity a, [a]) \<and>
      length (attachments a) = 10"
    using upload_limit [of ?r10 "''a1''" 7 "[]"] by blast
qed

section \<open>Properties of the month's bounds\<close>

lemma split_on_none: "c \<notin> set xs \<Longrightarrow> split_on c xs = [xs]"
  by (induction xs) auto

lemma split_on_first: "c \<notin> set xs \<Longrightarrow> split_on c (xs @ c # ys) = xs # split_on c ys"
  by (induction xs) auto

lemma is_digit_not_hyphen: "is_digit c \<Longrightarrow> c \<noteq> CHR ''-''"
  by (auto simp add: is_digit_def)

lemma is_digit_not_sign: "is_digit c \<Longrightarrow> c \<noteq> CHR ''+''"
  by (auto simp add: is_digit_def)

lemma is_digit_not_whitespace: "is_digit c \<Longrightarrow> \<not> is_whitespace c"
  by (auto simp add: is_digit_def is_whitespace_def)

lemma digit_value_le: "is_digit c \<Longrightarrow> digit_value c \<le> 9"
  by (auto simp add: is_digit_def digit_value_def)

lemma parseInt10_digits:
  assumes "is_digit c" and "\<forall>x \<in> set cs. is_digit x"
  shows "parseInt10 (Some (c # cs)) = Some (int (digits_value (c # cs)))"
proof -
  have tw: "takeWhile is_digit cs = cs"
    using assms(2) by simp
  show ?thesis
    using assms(1) is_digit_not_hyphen [OF assms(1)] is_digit_not_sign [OF assms(1)]
      is_digit_not_whitespace [OF assms(1)]
    by (simp add: parseInt10_def template_def Let_def tw)
qed

lemma leap_year_twentieth:
  assumes "1 \<le> y" and "y \<le> 99"
  shows "leap_year (1900 + y) = (y mod 4 = 0)"
proof -
  have "1900 + y = y + 4 * 475" by simp
  then have m4: "(1900 + y) mod 4 = y mod 4" by (simp only: mod_mult_self2)
  have "1900 + y = y + 100 * 19" by simp
  then have "(1900 + y) mod 100 = y mod 100" by (simp only: mod_mult_self2)
  then have m100: "(1900 + y) mod 100 \<noteq> 0" using assms by simp
  show ?thesis using m4 m100 by (simp add: leap_year_def)
qed

lemma calendar_leap_small:
  assumes "1 \<le> (y::int)" and "y \<le> 99"
  shows "(y mod 400 = 0 \<or> (y mod 4 = 0 \<and> y mod 100 \<noteq> 0)) = (y mod 4 = 0)"
  using assms by simp

lemma month_number:
  assumes "1 \<le> (m::int)" and "m \<le> 12"
  shows "(yr * 12 + m - 1) div 12 = yr" and "(yr * 12 + m - 1) mod 12 = m - 1"
proof -
  have e: "yr * 12 + m - 1 = (m - 1) + 12 * yr" by simp
  have "(m - 1) div 12 = 0" "(m - 1) mod 12 = m - 1" using assms by simp_all
  then show "(yr * 12 + m - 1) div 12 = yr" and "(yr * 12 + m - 1) mod 12 = m - 1"
    unfolding e by simp_all
qed

lemma date_last_day_calendar:
  assumes "1 \<le> y" and "y \<le> 9999" and "1 \<le> m" and "m \<le> 12"
  shows "date_last_day (Some y) (Some m) = Some (calendar_last_day y m)"
proof -
  define yr where "yr = (if 0 \<le> y \<and> y \<le> 99 then 1900 + y else y)"
  have yr: "1 \<le> yr" "yr \<le> 9999" using assms by (auto simp add: yr_def)
  have leap: "leap_year yr = (y mod 400 = 0 \<or> (y mod 4 = 0 \<and> y mod 100 \<noteq> 0))"
  proof (cases "y \<le> 99")
    case True
    then have "yr = 1900 + y" using assms(1) by (simp add: yr_def)
    then show ?thesis
      using leap_year_twentieth [OF assms(1) True] calendar_leap_small [OF assms(1) True]
      by simp
  next
    case False
    then show ?thesis by (auto simp add: yr_def leap_year_def)
  qed
  have range: "\<not> (yr * 12 + m - 1 < - 271821 * 12 + 3 \<or> 275760 * 12 + 7 < yr * 12 + m - 1)"
    using yr assms(3,4) by simp
  have "days_in_month yr (m - 1) = calendar_last_day y m"
    using assms(3,4) leap by (auto simp add: days_in_month_def calendar_last_day_def)
  then show ?thesis
    using range month_number [OF assms(3,4), of yr]
    by (simp add: date_last_day_def Let_def yr_def [symmetric])
qed

lemma decimal_two_digits:
  assumes "10 \<le> n" and "n < 100"
  shows "decimal n = [char_of (48 + n div 10), char_of (48 + n mod 10)]"
proof -
  have "n div 10 < 10" using assms(2) by simp
  then have "decimal (n div 10) = [char_of (48 + n div 10)]"
    by (subst decimal.simps) simp
  then show ?thesis using assms(1) by (subst decimal.simps) simp
qed

lemma pad2_two_digits:
  assumes "10 \<le> n" and "n < 100"
  shows "pad2 (Some n) = decimal (nat n)"
proof -
  have "length (decimal (nat n)) = 2"
    using assms decimal_two_digits [of "nat n"] by simp
  then show ?thesis using assms(1) by (simp add: pad2_def padStart_def number_toString_def)
qed

lemma calendar_last_day_range: "28 \<le> calendar_last_day y m \<and> calendar_last_day y m \<le> 31"
  by (simp add: calendar_last_day_def)

lemma digits_value_four:
  "digits_value [a, b, c, d] =
     1000 * digit_value a + 100 * digit_value b + 10 * digit_value c + digit_value d"
  by (simp add: digits_value_def)

text \<open>
  For a month in the form \<open>YYYY-MM\<close> from the year 0001 on, the handler's bounds are the
  first day of the month and its last day as the calendar has it.
\<close>

lemma month_bounds_calendar:
  assumes "month_form M" and "1 \<le> year_of M"
  shows "month_bounds M =
           (M @ ''-01'',
            M @ ''-'' @ decimal (nat (calendar_last_day (year_of M) (month_of M))))"
proof -
  from assms(1) obtain y1 y2 y3 y4 m1 m2 where
    M: "M = [y1, y2, y3, y4, CHR ''-'', m1, m2]" and
    dy: "is_digit y1" "is_digit y2" "is_digit y3" "is_digit y4" and
    dm: "is_digit m1" "is_digit m2" and
    mr: "1 \<le> digits_value [m1, m2]" "digits_value [m1, m2] \<le> 12"
    by (auto elim!: month_form.elims)
  have ny: "CHR ''-'' \<notin> set [y1, y2, y3, y4]" and nm: "CHR ''-'' \<notin> set [m1, m2]"
    using dy dm is_digit_not_hyphen by auto
  have "M = [y1, y2, y3, y4] @ CHR ''-'' # [m1, m2]" by (simp add: M)
  then have parts: "split_on (CHR ''-'') M = [[y1, y2, y3, y4], [m1, m2]]"
    using split_on_first [OF ny, of "[m1, m2]"] split_on_none [OF nm] by simp
  have y: "year_of M = int (digits_value [y1, y2, y3, y4])"
    and m: "month_of M = int (digits_value [m1, m2])"
    by (simp_all add: M year_of_def month_of_def)
  have py: "parseInt10 (Some [y1, y2, y3, y4]) = Some (year_of M)"
    using parseInt10_digits [of y1 "[y2, y3, y4]"] dy by (simp add: y)
  have pm: "parseInt10 (Some [m1, m2]) = Some (month_of M)"
    using parseInt10_digits [of m1 "[m2]"] dm by (simp add: m)
  have "digits_value [y1, y2, y3, y4] \<le> 9999"
    using dy [THEN digit_value_le] by (simp add: digits_value_four)
  then have "year_of M \<le> 9999" by (simp add: y)
  then have last: "date_last_day (Some (year_of M)) (Some (month_of M)) =
      Some (calendar_last_day (year_of M) (month_of M))"
    using date_last_day_calendar [of "year_of M" "month_of M"] assms(2) mr by (simp add: m)
  have pad: "pad2 (Some (calendar_last_day (year_of M) (month_of M))) =
      decimal (nat (calendar_last_day (year_of M) (month_of M)))"
    using calendar_last_day_range [of "year_of M" "month_of M"] by (simp add: pad2_two_digits)
  have "month_bounds M =
      ([y1, y2, y3, y4] @ ''-'' @ [m1, m2] @ ''-01'',
       [y1, y2, y3, y4] @ ''-'' @ [m1, m2] @ ''-'' @
         decimal (nat (calendar_last_day (year_of M) (month_of M))))"
    by (simp add: month_bounds_def parts template_def py pm last pad Let_def)
  then show ?thesis by (simp add: M)
qed

lemma month_bounds_examples:
  "month_bounds ''2024-02'' = (''2024-02-01'', ''2024-02-29'')"
  "month_bounds ''2023-02'' = (''2023-02-01'', ''2023-02-28'')"
  "month_bounds ''1900-02'' = (''1900-02-01'', ''1900-02-28'')"
  "month_bounds ''2000-02'' = (''2000-02-01'', ''2000-02-29'')"
  "month_bounds ''2025-12'' = (''2025-12-01'', ''2025-12-31'')"
  "month_bounds ''2025-04'' = (''2025-04-01'', ''2025-04-30'')"
  by code_simp+

text \<open>
  The month query returns the stored activities that overlap the handler's bounds, each
  as often as it is stored, and every stored activity when no month is given.
\<close>

lemma get_activities_overlap:
  assumes "M \<noteq> []"
  shows "\<exists>xs. get_activities (Some M) s = Success_activities xs \<and>
           mset xs = filter_mset
             (\<lambda>A. date A \<le> snd (month_bounds M) \<and> fst (month_bounds M) \<le> endDate A) (mset s)"
  using assms by (simp add: get_activities_def falsy_def mset_sort_activities)

lemma get_activities_all:
  assumes "falsy M"
  shows "\<exists>xs. get_activities M s = Success_activities xs \<and> mset xs = mset s"
  using assms by (simp add: get_activities_def mset_sort_activities)

lemma get_activities_scenario:
  "get_activities (Some ''2025-02'') [stored ''a1'' ''2025-01-30'' ''2025-02-02'' [] 1] =
     Success_activities [stored ''a1'' ''2025-01-30'' ''2025-02-02'' [] 1]"
  using month_bounds_calendar [of "''2025-02''"]
  by (simp add: get_activities_def falsy_def sort_activities_def stored_def year_of_def
        month_of_def digits_value_def digit_value_def is_digit_def calendar_last_day_def
        decimal_two_digits)

text \<open>
  C3. The month query builds \<open>startOfMonth\<close> and \<open>endOfMonth\<close> from the month given and
  returns the stored activities with \<open>date \<le> endOfMonth\<close> and
  \<open>startOfMonth \<le> endDate\<close>; the last day is meant to be the calendar's. For the month
  \<open>0000-02\<close> it is not: the year 0000 is a leap year of the calendar (divisible by
  400), so its February has 29 days, while the handler's \<open>Date\<close> reads the year 0 as
  1900 and ends the month at the 28th. An activity stored on \<open>0000-02-29\<close> is therefore
  missing from the query for its own month.
\<close>

theorem month_query_year_zero:
  "month_form ''0000-02'' \<and>
   calendar_last_day (year_of ''0000-02'') (month_of ''0000-02'') = 29 \<and>
   month_bounds ''0000-02'' = (''0000-02-01'', ''0000-02-28'') \<and>
   get_activities (Some ''0000-02'') [stored ''a1'' ''0000-02-29'' ''0000-02-29'' [] 1] =
     Success_activities []"
proof -
  have f: "month_form ''0000-02''"
    by (simp add: is_digit_def digits_value_def digit_value_def)
  have c: "calendar_last_day (year_of ''0000-02'') (month_of ''0000-02'') = 29"
    by (simp add: calendar_last_day_def year_of_def month_of_def digits_value_def
          digit_value_def)
  have b: "month_bounds ''0000-02'' = (''0000-02-01'', ''0000-02-28'')"
    by code_simp
  have "get_activities (Some ''0000-02'') [stored ''a1'' ''0000-02-29'' ''0000-02-29'' [] 1] =
     Success_activities []"
    by (simp add: get_activities_def falsy_def b stored_def sort_activities_def)
  then show ?thesis using f c b by simp
qed

section \<open>The two revisions of the day query\<close>

lemma insert_by_cong:
  "\<forall>y \<in> set ys. c x y = c' x y \<Longrightarrow> insert_by c x ys = insert_by c' x ys"
  by (induction ys) auto

lemma sort_by_cong:
  "\<forall>x \<in> set xs. \<forall>y \<in> set xs. c x y = c' x y \<Longrightarrow>
   foldr (insert_by c) xs [] = foldr (insert_by c') xs []"
proof (induction xs)
  case Nil
  then show ?case by simp
next
  case (Cons x xs)
  then have ih: "foldr (insert_by c) xs [] = foldr (insert_by c') xs []" by simp
  have "set (foldr (insert_by c') xs []) = set xs"
    by (induction xs) (simp_all add: set_insert_by)
  then have "\<forall>y \<in> set (foldr (insert_by c') xs []). c x y = c' x y"
    using Cons.prems by simp
  then show ?case using ih by (simp add: insert_by_cong)
qed

lemma sort_cmp_same_date: "date a = date b \<Longrightarrow> sort_cmp a b = sort_cmp_day a b"
  by (simp add: sort_cmp_def sort_cmp_day_def cmp_asc_def)

text \<open>
  On a collection of one-day activities the day query of the earlier revision gives the
  answer of the query by range: covering the day is having it as date, and among
  activities of one date the two sort orders agree.
\<close>

lemma get_activities_day_single_agrees:
  assumes "\<forall>a \<in> set s. endDate a = date a"
  shows "get_activities_day_single d s = get_activities_day d s"
proof (cases d)
  case None
  then show ?thesis by (simp add: get_activities_day_single_def get_activities_day_def)
next
  case (Some x)
  have f: "filter (\<lambda>a. date a \<le> x \<and> x \<le> endDate a) s = filter (\<lambda>a. date a = x) s"
    using assms by (intro filter_cong) auto
  have "\<forall>a \<in> set (filter (\<lambda>a. date a = x) s). \<forall>b \<in> set (filter (\<lambda>a. date a = x) s).
      sort_cmp_day a b = sort_cmp a b"
    by (simp add: sort_cmp_same_date)
  then have "foldr (insert_by sort_cmp_day) (filter (\<lambda>a. date a = x) s) [] =
      sort_activities (filter (\<lambda>a. date a = x) s)"
    unfolding sort_activities_def by (rule sort_by_cong)
  then show ?thesis
    using Some f by (simp add: get_activities_day_single_def get_activities_day_def)
qed

end
